theory Spec2Isabelle
  imports Main "HOL-Library.Word" "HOL-Library.List_Lexorder" "HOL-Library.Multiset"
begin

unbundle bit_operations_syntax

section \<open>Data model\<close>

text \<open>
  Go's \<^verbatim>\<open>[]byte\<close> is a list of 8-bit words. A Go \<^verbatim>\<open>string\<close> is a byte sequence
  too, and \<^verbatim>\<open>[]byte(s)\<close> / \<^verbatim>\<open>string(b)\<close> keep the bytes, so the string-typed entry points
  (\<^verbatim>\<open>SetS\<close>, \<^verbatim>\<open>GetS\<close>, \<^verbatim>\<open>DeleteS\<close> and the methods of \<^verbatim>\<open>DB\<close>) take \<open>bytes\<close> as well.
  With \<open>List_Lexorder\<close> the order on \<open>bytes\<close> is the lexicographic order on unsigned
  bytes, which is what \<^verbatim>\<open>bytes.Compare\<close> computes and what the engine sorts keys by.
\<close>

type_synonym bytes = "8 word list"

text \<open>
  The errors a call can return. \<open>BucketNotFound b\<close> is the wrapper's own
  \<^verbatim>\<open>fmt.Errorf("bucket %q not found", b)\<close>. The \<open>Err...\<close> constructors are the engine's
  error values. \<open>SerializationError m\<close> is an error of the JSON codec with message \<open>m\<close>.
\<close>

datatype error =
    BucketNotFound bytes
  | ErrBucketNotFound
  | ErrBucketNameRequired
  | ErrKeyRequired
  | ErrKeyTooLarge
  | ErrValueTooLarge
  | SerializationError string

text \<open>
  A bucket is an ordered keyspace with a sequence counter (the engine's
  \<^verbatim>\<open>bucket.sequence\<close>, a \<^verbatim>\<open>uint64\<close>). Its records are kept as the engine keeps them in
  its B+tree leaves: a list of key/value pairs in ascending key order.
  The database is the root keyspace: bucket name to bucket.
\<close>

record bucket =
  inodes :: "(bytes \<times> bytes) list"
  sequence :: "64 word"

type_synonym store = "bytes \<rightharpoonup> bucket"

definition empty_bucket :: bucket where
  "empty_bucket = \<lparr>inodes = [], sequence = 0\<rparr>"

section \<open>The storage engine (go.etcd.io/bbolt), as far as the wrapper calls it\<close>

text \<open>
  The engine is an external dependency of the repository. The definitions of this section
  follow the engine's documented contract for the calls the wrapper makes, inside a
  writable transaction on an open database whose buckets hold plain key/value records
  (the wrapper never creates a nested bucket).
\<close>

definition MaxKeySize :: nat where
  "MaxKeySize = 32768"

definition MaxValueSize :: nat where
  "MaxValueSize = 2 ^ 31 - 2"

text \<open>\<^verbatim>\<open>node.put\<close>: insert the pair at its sorted position, replacing an equal key.\<close>

fun node_put :: "bytes \<Rightarrow> bytes \<Rightarrow> (bytes \<times> bytes) list \<Rightarrow> (bytes \<times> bytes) list" where
  "node_put k v [] = [(k, v)]"
| "node_put k v ((k', v') # xs) =
     (if k < k' then (k, v) # (k', v') # xs
      else if k = k' then (k, v) # xs
      else (k', v') # node_put k v xs)"

text \<open>\<^verbatim>\<open>node.del\<close>: remove the pair with this key, if there is one.\<close>

fun node_del :: "bytes \<Rightarrow> (bytes \<times> bytes) list \<Rightarrow> (bytes \<times> bytes) list" where
  "node_del k [] = []"
| "node_del k ((k', v') # xs) =
     (if k = k' then xs else (k', v') # node_del k xs)"

text \<open>
  \<^verbatim>\<open>Tx.Bucket(name)\<close>: the bucket, or nil (\<open>None\<close>) when it does not exist.
\<close>

definition tx_Bucket :: "store \<Rightarrow> bytes \<Rightarrow> bucket option" where
  "tx_Bucket tx name = tx name"

text \<open>
  \<^verbatim>\<open>Tx.CreateBucketIfNotExists(name)\<close>: a blank name is \<^verbatim>\<open>ErrBucketNameRequired\<close>;
  an existing bucket is returned as it is; otherwise a new empty bucket is created.
  The result is the bucket together with the transaction state that holds it.
\<close>

definition tx_CreateBucketIfNotExists :: "store \<Rightarrow> bytes \<Rightarrow> error + bucket \<times> store" where
  "tx_CreateBucketIfNotExists tx name =
     (if length name = 0 then Inl ErrBucketNameRequired
      else case tx name of
             Some b \<Rightarrow> Inr (b, tx)
           | None \<Rightarrow> Inr (empty_bucket, tx(name \<mapsto> empty_bucket)))"

text \<open>
  \<^verbatim>\<open>Tx.DeleteBucket(name)\<close>: \<^verbatim>\<open>ErrBucketNotFound\<close> when the bucket cannot be found;
  otherwise the bucket and everything in it is removed.
\<close>

definition tx_DeleteBucket :: "store \<Rightarrow> bytes \<Rightarrow> error + store" where
  "tx_DeleteBucket tx name =
     (case tx name of
        None \<Rightarrow> Inl ErrBucketNotFound
      | Some b \<Rightarrow> Inr (tx(name := None)))"

text \<open>
  \<^verbatim>\<open>Bucket.Put(key, value)\<close>: a blank key is \<^verbatim>\<open>ErrKeyRequired\<close>, a key longer than
  \<^verbatim>\<open>MaxKeySize\<close> is \<^verbatim>\<open>ErrKeyTooLarge\<close>, a value longer than \<^verbatim>\<open>MaxValueSize\<close> is
  \<^verbatim>\<open>ErrValueTooLarge\<close>; otherwise the pair is stored, replacing the key's old value.
\<close>

definition bucket_Put :: "bucket \<Rightarrow> bytes \<Rightarrow> bytes \<Rightarrow> error + bucket" where
  "bucket_Put b key val =
     (if length key = 0 then Inl ErrKeyRequired
      else if length key > MaxKeySize then Inl ErrKeyTooLarge
      else if length val > MaxValueSize then Inl ErrValueTooLarge
      else Inr (b\<lparr>inodes := node_put key val (inodes b)\<rparr>))"

text \<open>
  \<^verbatim>\<open>Bucket.Get(key)\<close>: the value, or nil (\<open>None\<close>) when the key does not exist.
\<close>

definition bucket_Get :: "bucket \<Rightarrow> bytes \<Rightarrow> bytes option" where
  "bucket_Get b key = map_of (inodes b) key"

text \<open>
  \<^verbatim>\<open>Bucket.Delete(key)\<close>: removes the key; if the key does not exist nothing is done
  and a nil error is returned.
\<close>

definition bucket_Delete :: "bucket \<Rightarrow> bytes \<Rightarrow> error + bucket" where
  "bucket_Delete b key = Inr (b\<lparr>inodes := node_del key (inodes b)\<rparr>)"

text \<open>
  \<^verbatim>\<open>Bucket.NextSequence()\<close>: \<^verbatim>\<open>b.bucket.sequence++\<close> on a \<^verbatim>\<open>uint64\<close> (it wraps), and
  the new value is returned.
\<close>

definition bucket_NextSequence :: "bucket \<Rightarrow> 64 word \<times> bucket" where
  "bucket_NextSequence b = (sequence b + 1, b\<lparr>sequence := sequence b + 1\<rparr>)"




text \<open>
  \<^verbatim>\<open>DB.Update(fn)\<close>: runs \<open>fn\<close> in a write transaction; a nil return commits, an error
  rolls everything back and is returned. \<^verbatim>\<open>DB.Batch(fn)\<close> behaves like \<^verbatim>\<open>Update\<close> for
  its caller (it may share the commit with concurrent callers and may run \<open>fn\<close> again
  from the same rolled-back state). \<^verbatim>\<open>DB.View(fn)\<close> runs \<open>fn\<close> in a read transaction.
\<close>

definition Update :: "(store \<Rightarrow> error + store) \<Rightarrow> store \<Rightarrow> store \<times> error option" where
  "Update fn db = (case fn db of Inl e \<Rightarrow> (db, Some e) | Inr tx \<Rightarrow> (tx, None))"

definition Batch :: "(store \<Rightarrow> error + store) \<Rightarrow> store \<Rightarrow> store \<times> error option" where
  "Batch fn db = Update fn db"

definition View :: "(store \<Rightarrow> error + 'a) \<Rightarrow> store \<Rightarrow> error + 'a" where
  "View fn db = fn db"

section \<open>The wrapper: blight.go\<close>

text \<open>
  \<^verbatim>\<open>Set\<close> (blight.go uses \<^verbatim>\<open>db.Batch\<close>, the second copy of the API uses \<^verbatim>\<open>db.Update\<close>).
\<close>

definition Set_tx :: "bytes \<Rightarrow> bytes \<Rightarrow> bytes \<Rightarrow> store \<Rightarrow> error + store" where
  "Set_tx bkt key val tx =
     (case tx_CreateBucketIfNotExists tx bkt of
        Inl err \<Rightarrow> Inl err
      | Inr (b, tx1) \<Rightarrow>
          (case bucket_Put b key val of
             Inl err \<Rightarrow> Inl err
           | Inr b' \<Rightarrow> Inr (tx1(bkt \<mapsto> b'))))"

definition Set :: "store \<Rightarrow> bytes \<Rightarrow> bytes \<Rightarrow> bytes \<Rightarrow> store \<times> error option" where
  "Set db bkt key val = Batch (Set_tx bkt key val) db"

definition Set_update :: "store \<Rightarrow> bytes \<Rightarrow> bytes \<Rightarrow> bytes \<Rightarrow> store \<times> error option" where
  "Set_update db bkt key val = Update (Set_tx bkt key val) db"

definition SetS :: "store \<Rightarrow> bytes \<Rightarrow> bytes \<Rightarrow> bytes \<Rightarrow> store \<times> error option" where
  "SetS db bkt key val = Set db bkt key val"

text \<open>\<^verbatim>\<open>Get\<close>: \<open>Inl err\<close> is \<^verbatim>\<open>(nil, err)\<close>, \<open>Inr val\<close> is \<^verbatim>\<open>(val, nil)\<close>.\<close>

definition Get :: "store \<Rightarrow> bytes \<Rightarrow> bytes \<Rightarrow> error + bytes option" where
  "Get db bkt key =
     View (\<lambda>tx. case tx_Bucket tx bkt of
                  None \<Rightarrow> Inl (BucketNotFound bkt)
                | Some b \<Rightarrow> Inr (bucket_Get b key)) db"

text \<open>\<^verbatim>\<open>string(v)\<close> of a nil slice is the empty string.\<close>

definition string_of :: "bytes option \<Rightarrow> bytes" where
  "string_of v = (case v of None \<Rightarrow> [] | Some bs \<Rightarrow> bs)"

definition GetS :: "store \<Rightarrow> bytes \<Rightarrow> bytes \<Rightarrow> error + bytes" where
  "GetS db bkt key =
     (case Get db bkt key of
        Inr v \<Rightarrow> Inr (string_of v)
      | Inl err \<Rightarrow> Inl err)"

text \<open>\<^verbatim>\<open>Delete\<close>.\<close>

definition Delete :: "store \<Rightarrow> bytes \<Rightarrow> bytes \<Rightarrow> store \<times> error option" where
  "Delete db bkt key =
     Update (\<lambda>tx. case tx_Bucket tx bkt of
                    None \<Rightarrow> Inl (BucketNotFound bkt)
                  | Some b \<Rightarrow>
                      (case bucket_Delete b key of
                         Inl err \<Rightarrow> Inl err
                       | Inr b' \<Rightarrow> Inr (tx(bkt \<mapsto> b')))) db"

definition DeleteS :: "store \<Rightarrow> bytes \<Rightarrow> bytes \<Rightarrow> store \<times> error option" where
  "DeleteS db bkt key = Delete db bkt key"

text \<open>\<^verbatim>\<open>itob\<close> returns an 8-byte big endian representation of \<open>v\<close>.\<close>

definition itob :: "64 word \<Rightarrow> bytes" where
  "itob v = [ucast (drop_bit 56 v), ucast (drop_bit 48 v), ucast (drop_bit 40 v),
             ucast (drop_bit 32 v), ucast (drop_bit 24 v), ucast (drop_bit 16 v),
             ucast (drop_bit 8 v), ucast v]"

text \<open>
  \<^verbatim>\<open>Append\<close> (\<^verbatim>\<open>db.Batch\<close> in blight.go, \<^verbatim>\<open>db.Update\<close> in the second copy).
  The error of \<^verbatim>\<open>NextSequence\<close> is ignored by the source; in a write transaction there
  is none.
\<close>

definition Append_tx :: "bytes \<Rightarrow> bytes \<Rightarrow> store \<Rightarrow> error + store" where
  "Append_tx bkt val tx =
     (case tx_CreateBucketIfNotExists tx bkt of
        Inl err \<Rightarrow> Inl err
      | Inr (b, tx1) \<Rightarrow>
          (case bucket_NextSequence b of
             (seq, b1) \<Rightarrow>
               (case bucket_Put b1 (itob seq) val of
                  Inl err \<Rightarrow> Inl err
                | Inr b2 \<Rightarrow> Inr (tx1(bkt \<mapsto> b2)))))"

definition Append :: "store \<Rightarrow> bytes \<Rightarrow> bytes \<Rightarrow> store \<times> error option" where
  "Append db bkt val = Batch (Append_tx bkt val) db"

definition Append_update :: "store \<Rightarrow> bytes \<Rightarrow> bytes \<Rightarrow> store \<times> error option" where
  "Append_update db bkt val = Update (Append_tx bkt val) db"

text \<open>\<^verbatim>\<open>CreateBucket\<close>, \<^verbatim>\<open>DeleteBucket\<close> and \<^verbatim>\<open>ResetBucket\<close>.\<close>

definition CreateBucket :: "store \<Rightarrow> bytes \<Rightarrow> store \<times> error option" where
  "CreateBucket db bkt =
     Update (\<lambda>tx. case tx_CreateBucketIfNotExists tx bkt of
                    Inl err \<Rightarrow> Inl err
                  | Inr (b, tx1) \<Rightarrow> Inr tx1) db"

definition DeleteBucket :: "store \<Rightarrow> bytes \<Rightarrow> store \<times> error option" where
  "DeleteBucket db bkt = Update (\<lambda>tx. tx_DeleteBucket tx bkt) db"

definition ResetBucket :: "store \<Rightarrow> bytes \<Rightarrow> store \<times> error option" where
  "ResetBucket db bkt =
     Update (\<lambda>tx. case tx_DeleteBucket tx bkt of
                    Inl err \<Rightarrow> Inl err
                  | Inr tx1 \<Rightarrow>
                      (case tx_CreateBucketIfNotExists tx1 bkt of
                         Inl err \<Rightarrow> Inl err
                       | Inr (b, tx2) \<Rightarrow> Inr tx2)) db"

subsection \<open>JSON entry points\<close>

text \<open>
  \<^verbatim>\<open>json.Marshal\<close> and \<^verbatim>\<open>json.Unmarshal\<close> are library functions. They are parameters
  here: \<open>marshal\<close> maps a value to its encoding or to the codec's error message, and
  \<open>unmarshal\<close> maps bytes to the value decoded into the caller's \<^verbatim>\<open>out\<close> or to the
  codec's error message. \<^verbatim>\<open>GetJSON\<close> hands \<^verbatim>\<open>Unmarshal\<close> what \<^verbatim>\<open>Get\<close> returned, which is
  a nil slice (no bytes) when the key is absent.
\<close>

definition SetJSON ::
  "('v \<Rightarrow> string + bytes) \<Rightarrow> store \<Rightarrow> bytes \<Rightarrow> bytes \<Rightarrow> 'v \<Rightarrow> store \<times> error option" where
  "SetJSON marshal db bkt key val =
     (case marshal val of
        Inl m \<Rightarrow> (db, Some (SerializationError m))
      | Inr j \<Rightarrow> Set db bkt key j)"

definition AppendJSON ::
  "('v \<Rightarrow> string + bytes) \<Rightarrow> store \<Rightarrow> bytes \<Rightarrow> 'v \<Rightarrow> store \<times> error option" where
  "AppendJSON marshal db bkt val =
     (case marshal val of
        Inl m \<Rightarrow> (db, Some (SerializationError m))
      | Inr j \<Rightarrow> Append db bkt j)"

definition GetJSON ::
  "(bytes \<Rightarrow> string + 'v) \<Rightarrow> store \<Rightarrow> bytes \<Rightarrow> bytes \<Rightarrow> error + 'v" where
  "GetJSON unmarshal db bkt key =
     (case Get db bkt key of
        Inl err \<Rightarrow> Inl err
      | Inr vs \<Rightarrow>
          (case unmarshal (string_of vs) of
             Inl m \<Rightarrow> Inl (SerializationError m)
           | Inr out \<Rightarrow> Inr out))"

subsection \<open>The batched JSON write\<close>

text \<open>
  The callback of \<^verbatim>\<open>SetJSONBatch\<close> does not create the bucket. \<^verbatim>\<open>tx.Bucket\<close> is nil for
  an absent bucket and \<^verbatim>\<open>bkt.Put\<close> on the nil bucket panics (\<open>FnPanic\<close>). An error of
  \<^verbatim>\<open>Put\<close> goes to \<^verbatim>\<open>logrus.Fatal\<close>, which logs and ends the process (\<open>FnExit\<close>).
  Otherwise the callback returns nil.
\<close>

datatype fn_result = FnReturn "error + store" | FnPanic | FnExit

definition SetJSONBatch_fn :: "bytes \<Rightarrow> bytes \<Rightarrow> bytes \<Rightarrow> store \<Rightarrow> fn_result" where
  "SetJSONBatch_fn bkt key j tx =
     (case tx_Bucket tx bkt of
        None \<Rightarrow> FnPanic
      | Some b \<Rightarrow>
          (case bucket_Put b key j of
             Inl err \<Rightarrow> FnExit
           | Inr b' \<Rightarrow> FnReturn (Inr (tx(bkt \<mapsto> b')))))"

text \<open>
  \<^verbatim>\<open>DB.Batch\<close> for a callback that may panic or end the process. A panic inside the
  batch is caught by the engine, which then runs the callback alone in \<^verbatim>\<open>DB.Update\<close> on
  the caller's goroutine; there the panic rolls the transaction back and reaches the
  caller of \<^verbatim>\<open>Batch\<close>. A process that ends inside the callback has committed nothing.
\<close>

datatype batch_result = BatchReturn "error option" | BatchPanic | BatchExit

definition Batch_run :: "(store \<Rightarrow> fn_result) \<Rightarrow> store \<Rightarrow> store \<times> batch_result" where
  "Batch_run fn db =
     (case fn db of
        FnReturn (Inr tx) \<Rightarrow> (tx, BatchReturn None)
      | FnReturn (Inl e) \<Rightarrow> (db, BatchReturn (Some e))
      | FnPanic \<Rightarrow> (db, BatchPanic)
      | FnExit \<Rightarrow> (db, BatchExit))"

text \<open>
  What the caller of \<^verbatim>\<open>SetJSONBatch\<close> sees: the call returns an error value
  (\<open>Returned\<close>), or the process has ended (\<open>Exited\<close>). The deferred \<^verbatim>\<open>recover()\<close>
  turns a panic into a log line and the call returns the zero value of its result, nil.
  The error \<^verbatim>\<open>Batch\<close> returns is assigned and then dropped: the last statement is
  \<^verbatim>\<open>return nil\<close>.
\<close>

datatype 'a outcome = Returned 'a | Exited

definition SetJSONBatch ::
  "('v \<Rightarrow> string + bytes) \<Rightarrow> store \<Rightarrow> bytes \<Rightarrow> bytes \<Rightarrow> 'v
     \<Rightarrow> store \<times> error option outcome" where
  "SetJSONBatch marshal db bkt key val =
     (case marshal val of
        Inl m \<Rightarrow> (db, Returned (Some (SerializationError m)))
      | Inr j \<Rightarrow>
          (case Batch_run (SetJSONBatch_fn bkt key j) db of
             (db', BatchReturn err) \<Rightarrow> (db', Returned None)
           | (db', BatchPanic) \<Rightarrow> (db', Returned None)
           | (db', BatchExit) \<Rightarrow> (db', Exited)))"

subsection \<open>Iteration\<close>











section \<open>Notions used to state the properties\<close>

text \<open>The engine keeps the keys of a bucket in strictly ascending order.\<close>

definition bucket_ok :: "bucket \<Rightarrow> bool" where
  "bucket_ok b \<longleftrightarrow> sorted_wrt (<) (map fst (inodes b))"

text \<open>The value stored under a key of a bucket, if the bucket and the key exist.\<close>

definition stored :: "store \<Rightarrow> bytes \<Rightarrow> bytes \<Rightarrow> bytes option" where
  "stored db bkt key = (case db bkt of None \<Rightarrow> None | Some b \<Rightarrow> bucket_Get b key)"

text \<open>The sequence counter of a bucket; a bucket that does not exist yet starts at 0.\<close>

definition sequence_of :: "store \<Rightarrow> bytes \<Rightarrow> 64 word" where
  "sequence_of db bkt = (case db bkt of None \<Rightarrow> 0 | Some b \<Rightarrow> sequence b)"

text \<open>What \<^verbatim>\<open>Put\<close> accepts.\<close>

definition key_ok :: "bytes \<Rightarrow> bool" where
  "key_ok key \<longleftrightarrow> 0 < length key \<and> length key \<le> MaxKeySize"

definition value_ok :: "bytes \<Rightarrow> bool" where
  "value_ok val \<longleftrightarrow> length val \<le> MaxValueSize"

text \<open>
  The \<open>n\<close> low base-256 digits of a number, most significant first: the bytes of a
  big-endian encoding, as numbers.
\<close>

fun be_digits :: "nat \<Rightarrow> nat \<Rightarrow> nat list" where
  "be_digits 0 x = []"
| "be_digits (Suc n) x = (x div 256 ^ n) mod 256 # be_digits n x"



section \<open>The ordered key list\<close>

lemma map_of_node_put:
  "map_of (node_put k v xs) k' = (if k' = k then Some v else map_of xs k')"
  by (induction xs) auto

lemma set_node_put: "fst ` set (node_put k v xs) = insert k (fst ` set xs)"
proof -
  have "dom (map_of (node_put k v xs)) = insert k (dom (map_of xs))"
    by (auto simp: map_of_node_put split: if_splits)
  then show ?thesis by (simp add: dom_map_of_conv_image_fst)
qed

lemma sorted_node_put:
  "sorted_wrt (<) (map fst xs) \<Longrightarrow> sorted_wrt (<) (map fst (node_put k v xs))"
proof (induction xs)
  case Nil
  then show ?case by simp
next
  case (Cons p xs)
  obtain k' v' where p: "p = (k', v')" by (cases p)
  from Cons.prems have tl: "sorted_wrt (<) (map fst xs)" and hd: "\<forall>q\<in>set xs. k' < fst q"
    by (auto simp: p)
  show ?case
  proof (cases "k < k'")
    case True
    with Cons.prems hd show ?thesis by (auto simp: p)
  next
    case False
    show ?thesis
    proof (cases "k = k'")
      case True
      with Cons.prems show ?thesis by (auto simp: p)
    next
      case ne: False
      with False have "k' < k" by simp
      then have "\<forall>a\<in>fst ` set (node_put k v xs). k' < a"
        using hd unfolding set_node_put by auto
      then have "\<forall>q\<in>set (node_put k v xs). k' < fst q" by simp
      with Cons.IH [OF tl] False ne show ?thesis by (simp add: p)
    qed
  qed
qed

lemma set_node_del: "set (node_del k xs) \<subseteq> set xs"
  by (induction xs) (auto split: if_splits)

lemma sorted_node_del:
  "sorted_wrt (<) (map fst xs) \<Longrightarrow> sorted_wrt (<) (map fst (node_del k xs))"
proof (induction xs)
  case Nil
  then show ?case by simp
next
  case (Cons p xs)
  then show ?case using set_node_del [of k xs] by (cases p) auto
qed

lemma node_del_absent: "k \<notin> fst ` set xs \<Longrightarrow> node_del k xs = xs"
  by (induction xs) auto

lemma map_of_node_del:
  "sorted_wrt (<) (map fst xs) \<Longrightarrow>
   map_of (node_del k xs) k' = (if k' = k then None else map_of xs k')"
proof (induction xs)
  case Nil
  then show ?case by simp
next
  case (Cons p xs)
  obtain a b where p: "p = (a, b)" by (cases p)
  from Cons.prems have "a \<notin> fst ` set xs" by (auto simp: p)
  then have "map_of xs a = None" by (simp add: map_of_eq_None_iff)
  with Cons show ?case by (auto simp: p)
qed

section \<open>Set and Get\<close>

lemma Set_tx_ok:
  "B \<noteq> [] \<Longrightarrow> key_ok K \<Longrightarrow> value_ok V \<Longrightarrow>
   \<exists>b'. Set_tx B K V db = Inr (db(B \<mapsto> b')) \<and> bucket_Get b' K = Some V"
  by (auto simp: Set_tx_def tx_CreateBucketIfNotExists_def bucket_Put_def key_ok_def value_ok_def
      bucket_Get_def map_of_node_put split: option.splits)

lemma Set_Get_ok:
  assumes "B \<noteq> []" "key_ok K" "value_ok V"
  shows "snd (Set db B K V) = None" and "Get (fst (Set db B K V)) B K = Inr (Some V)"
  using Set_tx_ok [OF assms, of db]
  by (auto simp: Set_def Batch_def Update_def Get_def View_def tx_Bucket_def)

text \<open>
  Claim C1, as the code has it. For every bucket name \<open>B\<close> that is not blank, every key
  \<open>K\<close> of 1 to 32768 bytes and every value \<open>V\<close> of at most \<open>2^31 - 2\<close> bytes,
  \<^verbatim>\<open>Set(B,K,V)\<close> returns no error and the \<^verbatim>\<open>Get(B,K)\<close> that follows on the same store
  returns exactly \<open>V\<close>, whether or not \<open>B\<close> or \<open>K\<close> existed before.
\<close>

theorem Set_then_Get:
  assumes "B \<noteq> []" "key_ok K" "value_ok V"
  shows "snd (Set db B K V) = None \<and> Get (fst (Set db B K V)) B K = Inr (Some V)"
  using Set_Get_ok [OF assms] by simp

theorem Set_then_Get_witness:
  "snd (Set Map.empty [98] [107] [118]) = None \<and>
   Get (fst (Set Map.empty [98] [107] [118])) [98] [107] = Inr (Some [118])"
  using Set_then_Get [of "[98]" "[107]" "[118]" Map.empty]
  by (simp add: key_ok_def value_ok_def MaxKeySize_def MaxValueSize_def)

text \<open>
  The claim as stated, for every key, fails at the blank key: the engine's \<^verbatim>\<open>Put\<close>
  rejects it, \<^verbatim>\<open>Set\<close> returns \<^verbatim>\<open>ErrKeyRequired\<close>, and \<^verbatim>\<open>Get\<close> finds nothing.
\<close>

theorem Set_blank_key_counterexample:
  "snd (Set [[98] \<mapsto> empty_bucket] [98] [] [118]) = Some ErrKeyRequired \<and>
   Get (fst (Set [[98] \<mapsto> empty_bucket] [98] [] [118])) [98] [] = Inr None"
  by (simp add: Set_def Batch_def Update_def Set_tx_def tx_CreateBucketIfNotExists_def
      bucket_Put_def Get_def View_def tx_Bucket_def bucket_Get_def empty_bucket_def)

section \<open>Get\<close>

text \<open>
  Claim C3. \<^verbatim>\<open>Get(B,K)\<close> fails with the bucket-not-found error when bucket \<open>B\<close> does not
  exist, and returns the absent (nil) value with no error when \<open>B\<close> exists and \<open>K\<close> is
  not a key of it. So a \<^verbatim>\<open>Get\<close> without error does not tell that the key existed.
\<close>

theorem Get_bucket_missing_or_key_missing:
  "(db B = None \<longrightarrow> Get db B K = Inl (BucketNotFound B)) \<and>
   (\<forall>b. db B = Some b \<and> K \<notin> fst ` set (inodes b) \<longrightarrow> Get db B K = Inr None)"
  by (auto simp: Get_def View_def tx_Bucket_def bucket_Get_def map_of_eq_None_iff)

theorem Get_bucket_missing_or_key_missing_witness:
  "Get Map.empty [98] [107] = Inl (BucketNotFound [98]) \<and>
   Get [[98] \<mapsto> \<lparr>inodes = [([97], [1])], sequence = 0\<rparr>] [98] [107] = Inr None"
proof -
  let ?b = "\<lparr>inodes = [([97], [1::8 word])], sequence = 0\<rparr>"
  have k: "([107]::bytes) \<notin> fst ` set (inodes ?b)" by simp
  have "Get Map.empty [98] [107] = Inl (BucketNotFound [98])"
    using Get_bucket_missing_or_key_missing [of Map.empty "[98]" "[107]"] by simp
  moreover have "Get [[98] \<mapsto> ?b] [98] [107] = Inr None"
    using Get_bucket_missing_or_key_missing [of "[[98] \<mapsto> ?b]" "[98]" "[107]"] k by simp
  ultimately show ?thesis by simp
qed

section \<open>Delete\<close>

text \<open>
  Claim C7. \<^verbatim>\<open>Delete(B,K)\<close> fails with the bucket-not-found error when bucket \<open>B\<close> does
  not exist and changes nothing. When \<open>B\<close> exists it returns no error and removes the
  key; when \<open>K\<close> is not a key of \<open>B\<close> it still returns no error and the store is as
  before.
\<close>

theorem Delete_errors_only_without_bucket:
  "(db B = None \<longrightarrow> Delete db B K = (db, Some (BucketNotFound B))) \<and>
   (\<forall>b. db B = Some b \<longrightarrow>
      Delete db B K = (db(B \<mapsto> b\<lparr>inodes := node_del K (inodes b)\<rparr>), None) \<and>
      (K \<notin> fst ` set (inodes b) \<longrightarrow> Delete db B K = (db, None)))"
  by (auto simp: Delete_def Update_def tx_Bucket_def bucket_Delete_def node_del_absent
      map_upd_triv)

theorem Delete_errors_only_without_bucket_witness:
  "Delete Map.empty [98] [107] = (Map.empty, Some (BucketNotFound [98])) \<and>
   snd (Delete [[98] \<mapsto> \<lparr>inodes = [([97], [1])], sequence = 0\<rparr>] [98] [107]) = None \<and>
   snd (Delete [[98] \<mapsto> \<lparr>inodes = [([97], [1])], sequence = 0\<rparr>] [98] [97]) = None"
proof -
  let ?b = "\<lparr>inodes = [([97], [1::8 word])], sequence = 0\<rparr>"
  let ?db = "[[98] \<mapsto> ?b]"
  have k: "([107]::bytes) \<notin> fst ` set (inodes ?b)" by simp
  have e: "?db [98] = Some ?b" by simp
  have "Delete Map.empty [98] [107] = (Map.empty, Some (BucketNotFound [98]))"
    using Delete_errors_only_without_bucket [of Map.empty "[98]" "[107]"] by simp
  moreover have "Delete ?db [98] [107] = (?db, None)"
    using Delete_errors_only_without_bucket [of ?db "[98]" "[107]"] e k by blast
  moreover have "snd (Delete ?db [98] [97]) = None"
    using Delete_errors_only_without_bucket [of ?db "[98]" "[97]"] e by simp
  ultimately show ?thesis by simp
qed

section \<open>What Set leaves alone\<close>

lemma Set_tx_frame:
  assumes "Set_tx B K V db = Inr db'"
  shows "(B', K') \<noteq> (B, K) \<Longrightarrow> stored db' B' K' = stored db B' K'"
    and "B' \<noteq> B \<Longrightarrow> db' B' = db B'"
    and "sequence_of db' B' = sequence_of db B'"
    and "db B' \<noteq> None \<Longrightarrow> db' B' \<noteq> None"
  using assms
  by (auto simp: Set_tx_def tx_CreateBucketIfNotExists_def bucket_Put_def stored_def
      bucket_Get_def map_of_node_put sequence_of_def empty_bucket_def
      split: option.splits if_splits)

text \<open>
  Claim C10. \<^verbatim>\<open>Set(B,K,V)\<close> changes at most the binding of key \<open>K\<close> in bucket \<open>B\<close>:
  the value stored under every other key of \<open>B\<close> and under every key of every other
  bucket is what it was, every other bucket is untouched as a whole, no bucket
  disappears, and the sequence counter of \<open>B\<close> is kept. This holds whether the call
  succeeds or fails, and for the copy of \<^verbatim>\<open>Set\<close> that uses \<^verbatim>\<open>db.Update\<close> too, which
  leaves the same store behind.
\<close>

theorem Set_changes_one_binding:
  "(\<forall>B' K'. (B', K') \<noteq> (B, K) \<longrightarrow> stored (fst (Set db B K V)) B' K' = stored db B' K') \<and>
   (\<forall>B'. B' \<noteq> B \<longrightarrow> fst (Set db B K V) B' = db B') \<and>
   (db B \<noteq> None \<longrightarrow> fst (Set db B K V) B \<noteq> None) \<and>
   sequence_of (fst (Set db B K V)) B = sequence_of db B \<and>
   fst (Set_update db B K V) = fst (Set db B K V)"
proof (cases "Set_tx B K V db")
  case (Inl e)
  then show ?thesis by (simp add: Set_def Set_update_def Batch_def Update_def)
next
  case (Inr db')
  then have "fst (Set db B K V) = db'" "fst (Set_update db B K V) = db'"
    by (simp_all add: Set_def Set_update_def Batch_def Update_def)
  with Set_tx_frame [OF Inr] show ?thesis by auto
qed

theorem Set_changes_one_binding_witness:
  "stored (fst (Set [[98] \<mapsto> \<lparr>inodes = [([97], [1])], sequence = 7\<rparr>] [98] [107] [118]))
     [98] [97] = Some [1] \<and>
   fst (Set [[98] \<mapsto> \<lparr>inodes = [([97], [1])], sequence = 7\<rparr>] [98] [107] [118]) [99] = None \<and>
   fst (Set [[98] \<mapsto> \<lparr>inodes = [([97], [1])], sequence = 7\<rparr>] [98] [107] [118]) [98] \<noteq> None \<and>
   sequence_of (fst (Set [[98] \<mapsto> \<lparr>inodes = [([97], [1])], sequence = 7\<rparr>] [98] [107] [118]))
     [98] = 7"
proof -
  let ?db = "[[98] \<mapsto> \<lparr>inodes = [([97], [1::8 word])], sequence = 7\<rparr>] :: store"
  note t = Set_changes_one_binding [of "[98]" "[107]" ?db "[118]"]
  have ne: "(([98], [97]) :: bytes \<times> bytes) \<noteq> ([98], [107])" by simp
  from t ne have "stored (fst (Set ?db [98] [107] [118])) [98] [97] = stored ?db [98] [97]"
    by blast
  then have 1: "stored (fst (Set ?db [98] [107] [118])) [98] [97] = Some [1]"
    by (simp add: stored_def bucket_Get_def)
  have "([99]::bytes) \<noteq> [98]" by simp
  with t have "fst (Set ?db [98] [107] [118]) [99] = ?db [99]" by blast
  then have 2: "fst (Set ?db [98] [107] [118]) [99] = None" by simp
  have "?db [98] \<noteq> None" by simp
  with t have 3: "fst (Set ?db [98] [107] [118]) [98] \<noteq> None" by blast
  from t have "sequence_of (fst (Set ?db [98] [107] [118])) [98] = sequence_of ?db [98]"
    by blast
  then have 4: "sequence_of (fst (Set ?db [98] [107] [118])) [98] = 7"
    by (simp add: sequence_of_def)
  from 1 2 3 4 show ?thesis by blast
qed

section \<open>Buckets\<close>

text \<open>
  Claim C4, as the code has it. For every bucket \<open>B\<close> that exists (its name is not
  blank), \<^verbatim>\<open>ResetBucket(B)\<close> returns no error and replaces \<open>B\<close> by an empty bucket in
  one write transaction, so the \<^verbatim>\<open>Get(B, anyKey)\<close> that follows returns the absent
  value and no error. When \<open>B\<close> does not exist, \<^verbatim>\<open>ResetBucket(B)\<close> returns the engine's
  \<^verbatim>\<open>ErrBucketNotFound\<close> from \<^verbatim>\<open>DeleteBucket\<close>, creates nothing, and the \<^verbatim>\<open>Get\<close> that
  follows fails with the bucket-not-found error.
\<close>

theorem ResetBucket_existing_or_missing:
  "(\<forall>b. db B = Some b \<and> B \<noteq> [] \<longrightarrow>
      ResetBucket db B = (db(B \<mapsto> empty_bucket), None) \<and>
      Get (fst (ResetBucket db B)) B K = Inr None) \<and>
   (db B = None \<longrightarrow>
      ResetBucket db B = (db, Some ErrBucketNotFound) \<and>
      Get (fst (ResetBucket db B)) B K = Inl (BucketNotFound B))"
  by (auto simp: ResetBucket_def Update_def tx_DeleteBucket_def tx_CreateBucketIfNotExists_def
      Get_def View_def tx_Bucket_def bucket_Get_def empty_bucket_def)

theorem ResetBucket_existing_or_missing_witness:
  "Get (fst (ResetBucket [[98] \<mapsto> \<lparr>inodes = [([107], [1])], sequence = 3\<rparr>] [98])) [98] [107]
     = Inr None \<and>
   snd (ResetBucket [[98] \<mapsto> \<lparr>inodes = [([107], [1])], sequence = 3\<rparr>] [98]) = None \<and>
   ResetBucket Map.empty [98] = (Map.empty, Some ErrBucketNotFound)"
proof -
  let ?b = "\<lparr>inodes = [([107], [1::8 word])], sequence = 3\<rparr>"
  let ?db = "[[98] \<mapsto> ?b]"
  have e: "?db [98] = Some ?b \<and> ([98]::bytes) \<noteq> []" by simp
  have n: "(Map.empty :: store) [98] = None" by simp
  note inst = ResetBucket_existing_or_missing [of ?db "[98]" "[107]"]
  have g: "Get (fst (ResetBucket ?db [98])) [98] [107] = Inr None"
    using inst e by blast
  have "ResetBucket ?db [98] = (?db([98] \<mapsto> empty_bucket), None)"
    using inst e by blast
  then have s: "snd (ResetBucket ?db [98]) = None" by simp
  have m: "ResetBucket Map.empty [98] = (Map.empty, Some ErrBucketNotFound)"
    using ResetBucket_existing_or_missing [of Map.empty "[98]" "[107]"] n by blast
  from g s m show ?thesis by blast
qed

text \<open>
  The claim as stated, for every bucket name, fails at a bucket that does not exist:
  nothing is created and the \<^verbatim>\<open>Get\<close> that follows reports the bucket missing.
\<close>

theorem ResetBucket_missing_counterexample:
  "ResetBucket Map.empty [98] = (Map.empty, Some ErrBucketNotFound) \<and>
   Get (fst (ResetBucket Map.empty [98])) [98] [107] = Inl (BucketNotFound [98])"
  by (simp add: ResetBucket_def Update_def tx_DeleteBucket_def Get_def View_def tx_Bucket_def)

text \<open>
  Claim C6, as the code has it. For every bucket name \<open>B\<close> that is not blank,
  \<^verbatim>\<open>CreateBucket(B)\<close> returns no error whether or not \<open>B\<close> exists, leaves an existing
  \<open>B\<close> as it is, and calling it twice in a row gives the result and the store of
  calling it once. \<^verbatim>\<open>DeleteBucket(B)\<close> returns no error and removes \<open>B\<close> when \<open>B\<close>
  exists; when \<open>B\<close> does not exist it returns the engine's \<^verbatim>\<open>ErrBucketNotFound\<close> and
  changes nothing. So the second of two calls in a row leaves the store of the first
  and always returns \<^verbatim>\<open>ErrBucketNotFound\<close>.
\<close>

theorem CreateBucket_DeleteBucket_twice:
  "(B \<noteq> [] \<longrightarrow>
      snd (CreateBucket db B) = None \<and>
      fst (CreateBucket db B) B \<noteq> None \<and>
      (\<forall>b. db B = Some b \<longrightarrow> fst (CreateBucket db B) = db) \<and>
      CreateBucket (fst (CreateBucket db B)) B = CreateBucket db B) \<and>
   (db B \<noteq> None \<longrightarrow> DeleteBucket db B = (db(B := None), None)) \<and>
   (db B = None \<longrightarrow> DeleteBucket db B = (db, Some ErrBucketNotFound)) \<and>
   DeleteBucket (fst (DeleteBucket db B)) B = (fst (DeleteBucket db B), Some ErrBucketNotFound)"
  by (auto simp: CreateBucket_def DeleteBucket_def Update_def tx_DeleteBucket_def
      tx_CreateBucketIfNotExists_def split: option.splits)

theorem CreateBucket_DeleteBucket_twice_witness:
  "snd (CreateBucket Map.empty [98]) = None \<and>
   CreateBucket (fst (CreateBucket Map.empty [98])) [98] = CreateBucket Map.empty [98] \<and>
   snd (DeleteBucket [[98] \<mapsto> empty_bucket] [98]) = None \<and>
   DeleteBucket Map.empty [98] = (Map.empty, Some ErrBucketNotFound)"
proof -
  let ?db = "[[98] \<mapsto> empty_bucket] :: store"
  have b: "([98]::bytes) \<noteq> []" by simp
  note c = CreateBucket_DeleteBucket_twice [of "[98]" Map.empty]
  from c b have 1: "snd (CreateBucket Map.empty [98]) = None" by blast
  from c b have 2: "CreateBucket (fst (CreateBucket Map.empty [98])) [98]
                      = CreateBucket Map.empty [98]" by blast
  have "?db [98] \<noteq> None" by simp
  with CreateBucket_DeleteBucket_twice [of "[98]" ?db]
  have "DeleteBucket ?db [98] = (?db([98] := None), None)" by blast
  then have 3: "snd (DeleteBucket ?db [98]) = None" by simp
  have "(Map.empty :: store) [98] = None" by simp
  with c have 4: "DeleteBucket Map.empty [98] = (Map.empty, Some ErrBucketNotFound)" by blast
  from 1 2 3 4 show ?thesis by blast
qed

text \<open>
  The claim as stated fails for \<^verbatim>\<open>DeleteBucket\<close> at a bucket that does not exist: the
  call returns an error.
\<close>

theorem DeleteBucket_missing_counterexample:
  "DeleteBucket Map.empty [98] = (Map.empty, Some ErrBucketNotFound)"
  by (simp add: DeleteBucket_def Update_def tx_DeleteBucket_def)

section \<open>JSON\<close>

text \<open>
  Claim C5, as the code has it. In \<^verbatim>\<open>SetJSONBatch\<close> a value that cannot be encoded
  returns the codec's error to the caller. A panic inside the batched callback (the
  bucket does not exist) is caught and logged: the call returns nil and nothing is
  written. An error of the engine's \<^verbatim>\<open>Put\<close> is not returned to the caller: it is logged
  with \<^verbatim>\<open>logrus.Fatal\<close> and the process ends with nothing written. Otherwise the value
  is stored and the call returns nil.
\<close>

theorem SetJSONBatch_outcomes:
  "(\<forall>m. marshal v = Inl m \<longrightarrow>
      SetJSONBatch marshal db B K v = (db, Returned (Some (SerializationError m)))) \<and>
   (\<forall>j. marshal v = Inr j \<and> db B = None \<longrightarrow>
      SetJSONBatch marshal db B K v = (db, Returned None)) \<and>
   (\<forall>j b e. marshal v = Inr j \<and> db B = Some b \<and> bucket_Put b K j = Inl e \<longrightarrow>
      SetJSONBatch marshal db B K v = (db, Exited)) \<and>
   (\<forall>j b b'. marshal v = Inr j \<and> db B = Some b \<and> bucket_Put b K j = Inr b' \<longrightarrow>
      SetJSONBatch marshal db B K v = (db(B \<mapsto> b'), Returned None))"
  by (auto simp: SetJSONBatch_def Batch_run_def SetJSONBatch_fn_def tx_Bucket_def)

text \<open>
  The claim as stated has every engine error returned to the caller. With an existing
  bucket and the blank key the engine's \<^verbatim>\<open>Put\<close> fails with \<^verbatim>\<open>ErrKeyRequired\<close>, and the
  call does not return it: the process ends.
\<close>

theorem SetJSONBatch_engine_error_counterexample:
  "bucket_Put empty_bucket [] [49] = Inl ErrKeyRequired \<and>
   SetJSONBatch (\<lambda>v. Inr v) [[98] \<mapsto> empty_bucket] [98] [] [49]
     = ([[98] \<mapsto> empty_bucket], Exited)"
  by (simp add: SetJSONBatch_def Batch_run_def SetJSONBatch_fn_def tx_Bucket_def bucket_Put_def)

theorem SetJSONBatch_outcomes_witness:
  "SetJSONBatch (\<lambda>v. Inl ''json: unsupported value'') Map.empty [98] [107] ([49]::bytes)
     = (Map.empty, Returned (Some (SerializationError ''json: unsupported value''))) \<and>
   SetJSONBatch (\<lambda>v. Inr v) Map.empty [98] [107] [49] = (Map.empty, Returned None) \<and>
   SetJSONBatch (\<lambda>v. Inr v) [[98] \<mapsto> empty_bucket] [98] [] [49]
     = ([[98] \<mapsto> empty_bucket], Exited) \<and>
   SetJSONBatch (\<lambda>v. Inr v) [[98] \<mapsto> empty_bucket] [98] [107] [49]
     = ([[98] \<mapsto> \<lparr>inodes = [([107], [49])], sequence = 0\<rparr>], Returned None)"
proof -
  let ?bad = "\<lambda>v::bytes. (Inl ''json: unsupported value'' :: string + bytes)"
  let ?raw = "\<lambda>v::bytes. (Inr v :: string + bytes)"
  let ?db = "[[98] \<mapsto> empty_bucket] :: store"
  have 1: "SetJSONBatch ?bad Map.empty [98] [107] [49]
             = (Map.empty, Returned (Some (SerializationError ''json: unsupported value'')))"
    using SetJSONBatch_outcomes [of ?bad "[49]" Map.empty "[98]" "[107]"] by blast
  have 2: "SetJSONBatch ?raw Map.empty [98] [107] [49] = (Map.empty, Returned None)"
    using SetJSONBatch_outcomes [of ?raw "[49]" Map.empty "[98]" "[107]"] by simp
  have p3: "bucket_Put empty_bucket [] [49] = Inl ErrKeyRequired"
    by (simp add: bucket_Put_def)
  have 3: "SetJSONBatch ?raw ?db [98] [] [49] = (?db, Exited)"
    using SetJSONBatch_outcomes [of ?raw "[49]" ?db "[98]" "[]"] p3 by simp
  have p4: "bucket_Put empty_bucket [107] [49] = Inr \<lparr>inodes = [([107], [49])], sequence = 0\<rparr>"
    by (simp add: bucket_Put_def empty_bucket_def MaxKeySize_def MaxValueSize_def)
  have 4: "SetJSONBatch ?raw ?db [98] [107] [49]
             = (?db([98] \<mapsto> \<lparr>inodes = [([107], [49])], sequence = 0\<rparr>), Returned None)"
    using SetJSONBatch_outcomes [of ?raw "[49]" ?db "[98]" "[107]"] p4 by simp
  from 1 2 3 4 show ?thesis by simp
qed

text \<open>
  Claim C8, as the code has it. For every value \<open>v\<close> that the JSON encoder turns into
  bytes \<open>j\<close> (at most \<open>2^31 - 2\<close> of them), every bucket name \<open>B\<close> that is not blank and
  every key \<open>K\<close> of 1 to 32768 bytes, \<^verbatim>\<open>SetJSON(B,K,v)\<close> returns no error and the
  \<^verbatim>\<open>GetJSON(B,K,&out)\<close> that follows decodes exactly \<open>j\<close>: it returns what the decoder
  makes of \<open>j\<close>, so it yields \<open>out\<close> equal to \<open>v\<close> exactly when the decoder turns \<open>j\<close>
  back into \<open>v\<close>. \<^verbatim>\<open>SetJSON\<close> returns a serialization error exactly when \<open>v\<close> cannot
  be encoded, and then it is the encoder's error. \<^verbatim>\<open>GetJSON\<close> returns the
  bucket-not-found error of \<^verbatim>\<open>Get\<close> when the bucket does not exist; otherwise it
  returns what the decoder makes of the stored bytes, of no bytes when the key is
  absent: the decoder's error as a serialization error, or the decoded value.
\<close>

theorem SetJSON_GetJSON:
  "(\<forall>j. B \<noteq> [] \<and> key_ok K \<and> marshal v = Inr j \<and> value_ok j \<longrightarrow>
      snd (SetJSON marshal db B K v) = None \<and>
      GetJSON unmarshal (fst (SetJSON marshal db B K v)) B K =
        (case unmarshal j of
           Inl m \<Rightarrow> Inl (SerializationError m)
         | Inr out \<Rightarrow> Inr out) \<and>
      (GetJSON unmarshal (fst (SetJSON marshal db B K v)) B K = Inr v
         \<longleftrightarrow> unmarshal j = Inr v)) \<and>
   (\<forall>m. snd (SetJSON marshal db B K v) = Some (SerializationError m) \<longleftrightarrow> marshal v = Inl m) \<and>
   (db B = None \<longrightarrow> GetJSON unmarshal db B K = Inl (BucketNotFound B)) \<and>
   (\<forall>b. db B = Some b \<longrightarrow>
      GetJSON unmarshal db B K =
        (case unmarshal (string_of (bucket_Get b K)) of
           Inl m \<Rightarrow> Inl (SerializationError m)
         | Inr out \<Rightarrow> Inr out)) \<and>
   (\<forall>b. db B = Some b \<and> K \<notin> fst ` set (inodes b) \<longrightarrow>
      GetJSON unmarshal db B K =
        (case unmarshal [] of
           Inl m \<Rightarrow> Inl (SerializationError m)
         | Inr out \<Rightarrow> Inr out))"
proof -
  have rt: "snd (SetJSON marshal db B K v) = None \<and>
            GetJSON unmarshal (fst (SetJSON marshal db B K v)) B K =
              (case unmarshal j of
                 Inl m \<Rightarrow> Inl (SerializationError m)
               | Inr out \<Rightarrow> Inr out) \<and>
            (GetJSON unmarshal (fst (SetJSON marshal db B K v)) B K = Inr v
               \<longleftrightarrow> unmarshal j = Inr v)"
    if h: "B \<noteq> [] \<and> key_ok K \<and> marshal v = Inr j \<and> value_ok j" for j
  proof -
    from h have a: "B \<noteq> []" "key_ok K" "value_ok j" and mj: "marshal v = Inr j" by simp_all
    have s: "SetJSON marshal db B K v = Set db B K j" by (simp add: SetJSON_def mj)
    have 1: "snd (SetJSON marshal db B K v) = None"
      unfolding s by (rule Set_Get_ok(1) [OF a])
    have g: "Get (fst (SetJSON marshal db B K v)) B K = Inr (Some j)"
      unfolding s by (rule Set_Get_ok(2) [OF a])
    have 2: "GetJSON unmarshal (fst (SetJSON marshal db B K v)) B K =
              (case unmarshal j of
                 Inl m \<Rightarrow> Inl (SerializationError m)
               | Inr out \<Rightarrow> Inr out)"
      by (simp add: GetJSON_def g string_of_def)
    have 3: "GetJSON unmarshal (fst (SetJSON marshal db B K v)) B K = Inr v
               \<longleftrightarrow> unmarshal j = Inr v"
      unfolding 2 by (cases "unmarshal j") simp_all
    from 1 2 3 show ?thesis by (intro conjI)
  qed
  have ser: "snd (SetJSON marshal db B K v) = Some (SerializationError m) \<longleftrightarrow> marshal v = Inl m"
    for m
    by (cases "marshal v")
       (auto simp: SetJSON_def Set_def Batch_def Update_def Set_tx_def bucket_Put_def
          tx_CreateBucketIfNotExists_def split: sum.splits option.splits if_splits)
  have get: "db B = None \<longrightarrow> GetJSON unmarshal db B K = Inl (BucketNotFound B)"
    by (simp add: GetJSON_def Get_def View_def tx_Bucket_def)
  have dec: "GetJSON unmarshal db B K =
        (case unmarshal (string_of (bucket_Get b K)) of
           Inl m \<Rightarrow> Inl (SerializationError m)
         | Inr out \<Rightarrow> Inr out)" if "db B = Some b" for b
    using that by (simp add: GetJSON_def Get_def View_def tx_Bucket_def)
  have abs: "GetJSON unmarshal db B K =
        (case unmarshal [] of
           Inl m \<Rightarrow> Inl (SerializationError m)
         | Inr out \<Rightarrow> Inr out)" if "db B = Some b \<and> K \<notin> fst ` set (inodes b)" for b
  proof -
    from that have "bucket_Get b K = None"
      by (simp add: bucket_Get_def map_of_eq_None_iff)
    with that dec [of b] show ?thesis by (simp add: string_of_def)
  qed
  show ?thesis
  proof (intro conjI)
    show "\<forall>j. B \<noteq> [] \<and> key_ok K \<and> marshal v = Inr j \<and> value_ok j \<longrightarrow>
      snd (SetJSON marshal db B K v) = None \<and>
      GetJSON unmarshal (fst (SetJSON marshal db B K v)) B K =
        (case unmarshal j of
           Inl m \<Rightarrow> Inl (SerializationError m)
         | Inr out \<Rightarrow> Inr out) \<and>
      (GetJSON unmarshal (fst (SetJSON marshal db B K v)) B K = Inr v
         \<longleftrightarrow> unmarshal j = Inr v)"
      using rt by (intro allI impI)
    show "\<forall>m. snd (SetJSON marshal db B K v) = Some (SerializationError m) \<longleftrightarrow> marshal v = Inl m"
      using ser by (intro allI)
    show "db B = None \<longrightarrow> GetJSON unmarshal db B K = Inl (BucketNotFound B)" by (rule get)
    show "\<forall>b. db B = Some b \<longrightarrow>
      GetJSON unmarshal db B K =
        (case unmarshal (string_of (bucket_Get b K)) of
           Inl m \<Rightarrow> Inl (SerializationError m)
         | Inr out \<Rightarrow> Inr out)"
      using dec by (intro allI impI)
    show "\<forall>b. db B = Some b \<and> K \<notin> fst ` set (inodes b) \<longrightarrow>
      GetJSON unmarshal db B K =
        (case unmarshal [] of
           Inl m \<Rightarrow> Inl (SerializationError m)
         | Inr out \<Rightarrow> Inr out)"
      using abs by (intro allI impI)
  qed
qed

text \<open>
  The claim as stated fails in two ways. For every key: at the blank key \<^verbatim>\<open>SetJSON\<close>
  returns the engine's \<^verbatim>\<open>ErrKeyRequired\<close>, the transaction that created the bucket is
  rolled back, and \<^verbatim>\<open>GetJSON\<close> reports the bucket missing (the codec there is the one of
  \<^verbatim>\<open>json.RawMessage\<close>, whose encoding is the value itself). For every value that can be
  encoded: a Go value of type \<^verbatim>\<open>struct{ a int }\<close> with \<open>a = 1\<close> has no exported field,
  so \<^verbatim>\<open>json.Marshal\<close> encodes it as \<^verbatim>\<open>{}\<close> without error, and decoding \<^verbatim>\<open>{}\<close> sets no
  field: \<open>out\<close> comes back with \<open>a = 0\<close>. The value is given by its field.
\<close>

theorem SetJSON_GetJSON_counterexample:
  "SetJSON (\<lambda>v. Inr v) Map.empty [98] [] [123, 34, 97, 34, 58, 49, 125]
     = (Map.empty, Some ErrKeyRequired) \<and>
   GetJSON (\<lambda>j. Inr j) (fst (SetJSON (\<lambda>v. Inr v) Map.empty [98] [] [123, 34, 97, 34, 58, 49, 125]))
     [98] [] = (Inl (BucketNotFound [98]) :: error + bytes) \<and>
   snd (SetJSON (\<lambda>a. Inr [123, 125]) Map.empty [98] [107] (1::int)) = None \<and>
   GetJSON (\<lambda>j. if j = [123, 125] then Inr 0 else Inl ''json: cannot unmarshal'')
     (fst (SetJSON (\<lambda>a. Inr [123, 125]) Map.empty [98] [107] (1::int))) [98] [107]
     = Inr (0::int)"
  by (simp add: SetJSON_def GetJSON_def Set_def Batch_def Update_def Set_tx_def
      tx_CreateBucketIfNotExists_def bucket_Put_def empty_bucket_def Get_def View_def
      tx_Bucket_def bucket_Get_def string_of_def MaxKeySize_def MaxValueSize_def)


text \<open>
  The theorem at the codec of a Go \<^verbatim>\<open>bool\<close>, which encodes to \<^verbatim>\<open>true\<close> or \<^verbatim>\<open>false\<close> and
  decodes these two; decoding no bytes is the error of an input that ends too early.
\<close>

theorem SetJSON_GetJSON_witness:
  "snd (SetJSON (\<lambda>v. Inr (if v then [116, 114, 117, 101] else [102, 97, 108, 115, 101]))
          Map.empty [98] [107] True) = None \<and>
   GetJSON (\<lambda>j. if j = [116, 114, 117, 101] then Inr True
                 else if j = [102, 97, 108, 115, 101] then Inr False
                 else Inl ''unexpected end of JSON input'')
     (fst (SetJSON (\<lambda>v. Inr (if v then [116, 114, 117, 101] else [102, 97, 108, 115, 101]))
             Map.empty [98] [107] True)) [98] [107] = Inr True \<and>
   snd (SetJSON (\<lambda>v. Inl ''json: unsupported value'') Map.empty [98] [107] True)
     = Some (SerializationError ''json: unsupported value'') \<and>
   GetJSON (\<lambda>j. if j = [116, 114, 117, 101] then Inr True
                 else if j = [102, 97, 108, 115, 101] then Inr False
                 else Inl ''unexpected end of JSON input'')
     Map.empty [98] [107] = Inl (BucketNotFound [98]) \<and>
   GetJSON (\<lambda>j. if j = [116, 114, 117, 101] then Inr True
                 else if j = [102, 97, 108, 115, 101] then Inr False
                 else Inl ''unexpected end of JSON input'')
     [[98] \<mapsto> empty_bucket] [98] [107]
     = Inl (SerializationError ''unexpected end of JSON input'')"
proof -
  let ?enc = "\<lambda>v::bool. (Inr (if v then [116, 114, 117, 101] else [102, 97, 108, 115, 101])
                :: string + bytes)"
  let ?bad = "\<lambda>v::bool. (Inl ''json: unsupported value'' :: string + bytes)"
  let ?dec = "\<lambda>j::bytes. if j = [116, 114, 117, 101] then Inr True
                 else if j = [102, 97, 108, 115, 101] then Inr False
                 else Inl ''unexpected end of JSON input''"
  let ?J = "[116, 114, 117, 101] :: bytes"
  let ?db = "[[98] \<mapsto> empty_bucket] :: store"
  have h: "([98]::bytes) \<noteq> [] \<and> key_ok [107] \<and> ?enc True = Inr ?J \<and> value_ok ?J"
    by (simp add: key_ok_def value_ok_def MaxKeySize_def MaxValueSize_def)
  note a = SetJSON_GetJSON [where B = "[98]" and K = "[107]" and marshal = ?enc and v = True
      and unmarshal = ?dec and db = Map.empty]
  note b = SetJSON_GetJSON [where B = "[98]" and K = "[107]" and marshal = ?bad and v = True
      and unmarshal = ?dec and db = Map.empty]
  note c = SetJSON_GetJSON [where B = "[98]" and K = "[107]" and marshal = ?enc and v = True
      and unmarshal = ?dec and db = ?db]
  note rt = a [THEN conjunct1, THEN spec, THEN mp, OF h]
  have 1: "snd (SetJSON ?enc Map.empty [98] [107] True) = None"
    by (rule rt [THEN conjunct1])
  have "?dec ?J = Inr True" by simp
  then have 2: "GetJSON ?dec (fst (SetJSON ?enc Map.empty [98] [107] True)) [98] [107] = Inr True"
    by (rule rt [THEN conjunct2, THEN conjunct2, THEN iffD2])
  have "?bad True = Inl ''json: unsupported value''" by simp
  then have 3: "snd (SetJSON ?bad Map.empty [98] [107] True)
             = Some (SerializationError ''json: unsupported value'')"
    by (rule b [THEN conjunct2, THEN conjunct1, THEN spec, THEN iffD2])
  have "(Map.empty :: store) [98] = None" by simp
  then have 4: "GetJSON ?dec Map.empty [98] [107] = Inl (BucketNotFound [98])"
    by (rule a [THEN conjunct2, THEN conjunct2, THEN conjunct1, THEN mp])
  have "?db [98] = Some empty_bucket \<and> ([107]::bytes) \<notin> fst ` set (inodes empty_bucket)"
    by (simp add: empty_bucket_def)
  then have "GetJSON ?dec ?db [98] [107] =
        (case ?dec [] of
           Inl m \<Rightarrow> Inl (SerializationError m)
         | Inr out \<Rightarrow> Inr out)"
    by (rule c [THEN conjunct2, THEN conjunct2, THEN conjunct2, THEN conjunct2, THEN spec, THEN mp])
  then have 5: "GetJSON ?dec ?db [98] [107]
                  = Inl (SerializationError ''unexpected end of JSON input'')"
    by simp
  show ?thesis by (intro conjI) (rule 1 2 3 4 5)+
qed

section \<open>Append\<close>

text \<open>The byte-wise order of big-endian keys is the order of the numbers.\<close>

lemma digit_mod:
  fixes x :: nat
  assumes "n < k"
  shows "(x mod 256 ^ k) div 256 ^ n mod 256 = x div 256 ^ n mod 256"
proof -
  obtain d where k: "k = Suc n + d" using assms less_iff_Suc_add by auto
  have p: "(256::nat) ^ k = 256 ^ n * (256 * 256 ^ d)" by (simp add: k power_add)
  have "(x mod 256 ^ k) div 256 ^ n = (x div 256 ^ n) mod (256 * 256 ^ d)"
    unfolding p by (simp add: mod_mult2_eq)
  also have "\<dots> mod 256 = x div 256 ^ n mod 256"
    by (simp add: mod_mod_cancel)
  finally show ?thesis .
qed

lemma be_digits_mod: "n \<le> k \<Longrightarrow> be_digits n (x mod 256 ^ k) = be_digits n x"
  by (induction n) (simp_all add: digit_mod)

lemma map_unat_less: "map unat (xs :: 8 word list) < map unat ys \<longleftrightarrow> xs < ys"
proof (induction xs arbitrary: ys)
  case Nil
  then show ?case by (cases ys) auto
next
  case (Cons x xs)
  then show ?case by (cases ys) (auto simp: word_less_nat_alt word_unat_eq_iff)
qed

lemma succ_less: 
  assumes "(s::64 word) \<noteq> 0xFFFFFFFFFFFFFFFE"
  shows "s + 1 < s + 2"
proof -
  have b: "unat s < 18446744073709551616" using unsigned_less [of s] by simp
  have ne: "unat s \<noteq> 18446744073709551614"
    using assms by (simp add: word_unat_eq_iff)
  have u1: "unat (s + 1) = (unat s + 1) mod 18446744073709551616"
    by (simp add: unat_word_ariths)
  have u2: "unat (s + 2) = (unat s + 2) mod 18446744073709551616"
    by (simp add: unat_word_ariths)
  show ?thesis
  proof (cases "unat s = 18446744073709551615")
    case True
    then show ?thesis by (simp add: word_less_nat_alt u1 u2)
  next
    case False
    with b ne have "unat s + 2 < 18446744073709551616" by simp
    then show ?thesis by (simp add: word_less_nat_alt u1 u2)
  qed
qed

lemma split_less:
  fixes x y :: nat
  assumes "0 < m"
  shows "x < y \<longleftrightarrow> x div m < y div m \<or> x div m = y div m \<and> x mod m < y mod m"
proof -
  have x: "x = m * (x div m) + x mod m" and y: "y = m * (y div m) + y mod m" by simp_all
  have mx: "x mod m < m" and my: "y mod m < m" using assms by simp_all
  show ?thesis
  proof (cases "x div m < y div m")
    case True
    then have "x div m + 1 \<le> y div m" by simp
    then have "m * (x div m + 1) \<le> m * (y div m)" by (rule mult_le_mono2)
    then have "m * (x div m) + m \<le> m * (y div m)" by (simp add: algebra_simps)
    with mx have "m * (x div m) + x mod m < m * (y div m) + y mod m" by linarith
    with x y have "x < y" by metis
    with True show ?thesis by simp
  next
    case False
    show ?thesis
    proof (cases "x div m = y div m")
      case True
      then have "x < y \<longleftrightarrow> x mod m < y mod m"
        by (metis x y nat_add_left_cancel_less)
      with True show ?thesis by simp
    next
      case ne: False
      with False have "y div m < x div m" by simp
      then have "y div m + 1 \<le> x div m" by simp
      then have "m * (y div m + 1) \<le> m * (x div m)" by (rule mult_le_mono2)
      then have "m * (y div m) + m \<le> m * (x div m)" by (simp add: algebra_simps)
      with my have "m * (y div m) + y mod m < m * (x div m) + x mod m" by linarith
      with x y have "y < x" by metis
      with False ne show ?thesis by simp
    qed
  qed
qed

lemma be_digits_less:
  "x < 256 ^ n \<Longrightarrow> y < 256 ^ n \<Longrightarrow> be_digits n x < be_digits n y \<longleftrightarrow> x < y"
proof (induction n arbitrary: x y)
  case 0
  then show ?case by simp
next
  case (Suc n)
  have dx: "x div 256 ^ n < 256" and dy: "y div 256 ^ n < 256"
    using Suc.prems by (simp_all add: less_mult_imp_div_less mult.commute)
  have "be_digits n x < be_digits n y \<longleftrightarrow> x mod 256 ^ n < y mod 256 ^ n"
    using Suc.IH [of "x mod 256 ^ n" "y mod 256 ^ n"] by (simp add: be_digits_mod)
  with dx dy show ?case
    using split_less [of "256 ^ n" x y] by simp
qed

lemma be_digits_8:
  "be_digits 8 x = [x div 256 ^ 7 mod 256, x div 256 ^ 6 mod 256, x div 256 ^ 5 mod 256,
     x div 256 ^ 4 mod 256, x div 256 ^ 3 mod 256, x div 256 ^ 2 mod 256,
     x div 256 mod 256, x mod 256]"
proof -
  have e: "(8::nat) = Suc (Suc (Suc (Suc (Suc (Suc (Suc (Suc 0)))))))" by simp
  show ?thesis unfolding e be_digits.simps by simp
qed

lemma unat_byte:
  "unat (ucast (drop_bit k (v :: 64 word)) :: 8 word) = unat v div 2 ^ k mod 256"
proof -
  have "unat v < 2 ^ 64" using unsigned_less [of v] by simp
  then have "take_bit 64 (unat v) = unat v" by (rule take_bit_nat_eq_self)
  then have "unat (drop_bit k v) = drop_bit k (unat v)"
    by (simp add: unsigned_drop_bit_eq)
  moreover have "unat (ucast (drop_bit k v) :: 8 word) = take_bit 8 (unat (drop_bit k v))"
    by (simp add: unsigned_ucast_eq)
  ultimately show ?thesis by (simp add: take_bit_eq_mod drop_bit_eq_div)
qed

lemma itob_digits: "map unat (itob v) = be_digits 8 (unat v)"
proof -
  have "unat (ucast v :: 8 word) = unat v mod 256" using unat_byte [of 0 v] by simp
  then show ?thesis unfolding be_digits_8 itob_def by (simp add: unat_byte)
qed

lemma itob_less: "itob a < itob b \<longleftrightarrow> a < b"
proof -
  have "unat a < 256 ^ 8" "unat b < 256 ^ 8"
    using unsigned_less [of a] unsigned_less [of b] by simp_all
  then have "be_digits 8 (unat a) < be_digits 8 (unat b) \<longleftrightarrow> unat a < unat b"
    by (rule be_digits_less)
  then show ?thesis
    by (simp add: word_less_nat_alt flip: itob_digits map_unat_less)
qed

lemma length_itob: "length (itob v) = 8"
  by (simp add: itob_def)

lemma key_ok_itob: "key_ok (itob v)"
  by (simp add: key_ok_def length_itob MaxKeySize_def)

lemma Append_tx_ok:
  assumes "B \<noteq> []" "value_ok V"
  shows "\<exists>db'. Append_tx B V db = Inr db' \<and>
           stored db' B (itob (sequence_of db B + 1)) = Some V \<and>
           sequence_of db' B = sequence_of db B + 1 \<and>
           (\<forall>K. K \<noteq> itob (sequence_of db B + 1) \<longrightarrow> stored db' B K = stored db B K) \<and>
           (\<forall>B'. B' \<noteq> B \<longrightarrow> db' B' = db B')"
proof -
  let ?k = "itob (sequence_of db B + 1)"
  have put: "bucket_Put b ?k V = Inr (b\<lparr>inodes := node_put ?k V (inodes b)\<rparr>)" for b
    using key_ok_itob [of "sequence_of db B + 1"] assms(2)
    by (simp add: bucket_Put_def key_ok_def value_ok_def)
  show ?thesis
  proof (cases "db B")
    case None
    then show ?thesis using assms(1) put
      by (simp add: Append_tx_def tx_CreateBucketIfNotExists_def bucket_NextSequence_def
          stored_def sequence_of_def bucket_Get_def map_of_node_put empty_bucket_def)
  next
    case (Some b)
    then show ?thesis using assms(1) put
      by (simp add: Append_tx_def tx_CreateBucketIfNotExists_def bucket_NextSequence_def
          stored_def sequence_of_def bucket_Get_def map_of_node_put)
  qed
qed

lemma Append_ok:
  assumes "B \<noteq> []" "value_ok V"
  shows "snd (Append db B V) = None"
    and "stored (fst (Append db B V)) B K =
           (if K = itob (sequence_of db B + 1) then Some V else stored db B K)"
    and "sequence_of (fst (Append db B V)) B = sequence_of db B + 1"
    and "fst (Append_update db B V) = fst (Append db B V)"
proof -
  from Append_tx_ok [OF assms, where db = db] obtain db' where
    tx: "Append_tx B V db = Inr db'" and
    st: "stored db' B (itob (sequence_of db B + 1)) = Some V" and
    sq: "sequence_of db' B = sequence_of db B + 1" and
    fr: "\<forall>K. K \<noteq> itob (sequence_of db B + 1) \<longrightarrow> stored db' B K = stored db B K"
    by blast
  from tx have r: "Append db B V = (db', None)" "Append_update db B V = (db', None)"
    by (simp_all add: Append_def Append_update_def Batch_def Update_def)
  show "snd (Append db B V) = None" by (simp add: r)
  show "stored (fst (Append db B V)) B K =
           (if K = itob (sequence_of db B + 1) then Some V else stored db B K)"
    using st fr by (simp add: r)
  show "sequence_of (fst (Append db B V)) B = sequence_of db B + 1" by (simp add: r sq)
  show "fst (Append_update db B V) = fst (Append db B V)" by (simp add: r)
qed

text \<open>
  Claim C2, as the code has it. For every bucket name \<open>B\<close> that is not blank and values
  \<open>V1\<close>, \<open>V2\<close> of at most \<open>2^31 - 2\<close> bytes, two successive calls \<^verbatim>\<open>Append(B,V1)\<close>
  and \<^verbatim>\<open>Append(B,V2)\<close> return no error, insert \<open>V1\<close> under the 8-byte big-endian key
  \<open>K1\<close> of the bucket's sequence plus 1 and \<open>V2\<close> under the key \<open>K2\<close> of the sequence
  plus 2, change no other key of \<open>B\<close>, and advance the sequence by one per call.
  Unless the first call receives the last sequence number \<open>2^64 - 1\<close> (the sequence
  was \<open>2^64 - 2\<close> before it), \<open>K1 < K2\<close> under byte-wise comparison. The calls are made
  one after the other, as the engine's single writer makes them.
\<close>

theorem Append_keys_increase:
  assumes "B \<noteq> []" "value_ok V1" "value_ok V2" "sequence_of db B \<noteq> 0xFFFFFFFFFFFFFFFE"
  shows "snd (Append db B V1) = None \<and>
         snd (Append (fst (Append db B V1)) B V2) = None \<and>
         (\<forall>K. stored (fst (Append db B V1)) B K =
                (if K = itob (sequence_of db B + 1) then Some V1 else stored db B K)) \<and>
         (\<forall>K. stored (fst (Append (fst (Append db B V1)) B V2)) B K =
                (if K = itob (sequence_of db B + 2) then Some V2
                 else stored (fst (Append db B V1)) B K)) \<and>
         itob (sequence_of db B + 1) < itob (sequence_of db B + 2) \<and>
         sequence_of (fst (Append db B V1)) B = sequence_of db B + 1"
proof -
  let ?db1 = "fst (Append db B V1)"
  have s1: "sequence_of ?db1 B = sequence_of db B + 1"
    by (rule Append_ok(3) [OF assms(1,2)])
  then have s2: "sequence_of ?db1 B + 1 = sequence_of db B + 2" by simp
  have lt: "itob (sequence_of db B + 1) < itob (sequence_of db B + 2)"
    using succ_less [OF assms(4)] by (simp add: itob_less)
  have r1: "snd (Append db B V1) = None" by (rule Append_ok(1) [OF assms(1,2)])
  have r2: "snd (Append ?db1 B V2) = None" by (rule Append_ok(1) [OF assms(1,3)])
  have k1: "stored ?db1 B K =
              (if K = itob (sequence_of db B + 1) then Some V1 else stored db B K)" for K
    by (rule Append_ok(2) [OF assms(1,2)])
  have k2: "stored (fst (Append ?db1 B V2)) B K =
              (if K = itob (sequence_of db B + 2) then Some V2 else stored ?db1 B K)" for K
    using Append_ok(2) [OF assms(1,3), where db = ?db1 and K = K] unfolding s2 .
  from r1 r2 k1 k2 lt s1 show ?thesis by (intro conjI allI)
qed

text \<open>
  The claim as stated, for all calls, fails where the \<^verbatim>\<open>uint64\<close> sequence rolls over:
  with the sequence at \<open>2^64 - 2\<close> the first record goes under the key of \<open>2^64 - 1\<close>,
  the second under the key of 0, and the second key is the smaller one.
\<close>

theorem Append_rollover_counterexample:
  "stored (fst (Append [[98] \<mapsto> \<lparr>inodes = [], sequence = 0xFFFFFFFFFFFFFFFE\<rparr>] [98] [1])) [98]
     [255, 255, 255, 255, 255, 255, 255, 255] = Some [1] \<and>
   stored (fst (Append [[98] \<mapsto> \<lparr>inodes = [], sequence = 0xFFFFFFFFFFFFFFFE\<rparr>] [98] [1])) [98]
     [0, 0, 0, 0, 0, 0, 0, 0] = None \<and>
   stored (fst (Append (fst (Append [[98] \<mapsto> \<lparr>inodes = [], sequence = 0xFFFFFFFFFFFFFFFE\<rparr>]
     [98] [1])) [98] [2])) [98] [0, 0, 0, 0, 0, 0, 0, 0] = Some [2] \<and>
   \<not> ([255, 255, 255, 255, 255, 255, 255, 255] :: bytes) < [0, 0, 0, 0, 0, 0, 0, 0]"
  by (simp add: Append_def Batch_def Update_def Append_tx_def tx_CreateBucketIfNotExists_def
      bucket_NextSequence_def bucket_Put_def itob_def stored_def bucket_Get_def
      MaxKeySize_def MaxValueSize_def)

theorem Append_keys_increase_witness:
  "snd (Append Map.empty [98] [1]) = None \<and>
   snd (Append (fst (Append Map.empty [98] [1])) [98] [2]) = None \<and>
   stored (fst (Append Map.empty [98] [1])) [98] [0, 0, 0, 0, 0, 0, 0, 1] = Some [1] \<and>
   stored (fst (Append (fst (Append Map.empty [98] [1])) [98] [2])) [98] [0, 0, 0, 0, 0, 0, 0, 2]
     = Some [2] \<and>
   ([0, 0, 0, 0, 0, 0, 0, 1] :: bytes) < [0, 0, 0, 0, 0, 0, 0, 2]"
proof -
  have h: "([98]::bytes) \<noteq> []" "value_ok [1]" "value_ok [2]"
    "sequence_of Map.empty [98] \<noteq> 0xFFFFFFFFFFFFFFFE"
    by (simp_all add: value_ok_def MaxValueSize_def sequence_of_def)
  have k: "itob (sequence_of Map.empty [98] + 1) = [0, 0, 0, 0, 0, 0, 0, 1]"
    "itob (sequence_of Map.empty [98] + 2) = [0, 0, 0, 0, 0, 0, 0, 2]"
    by (simp_all add: sequence_of_def itob_def)
  note t = Append_keys_increase [OF h, unfolded k]
  have 1: "snd (Append Map.empty [98] [1]) = None" by (rule t [THEN conjunct1])
  have 2: "snd (Append (fst (Append Map.empty [98] [1])) [98] [2]) = None"
    by (rule t [THEN conjunct2, THEN conjunct1])
  have 3: "stored (fst (Append Map.empty [98] [1])) [98] [0, 0, 0, 0, 0, 0, 0, 1] = Some [1]"
    using t [THEN conjunct2, THEN conjunct2, THEN conjunct1, THEN spec,
        where x = "[0, 0, 0, 0, 0, 0, 0, 1]"] by simp
  have 4: "stored (fst (Append (fst (Append Map.empty [98] [1])) [98] [2])) [98]
             [0, 0, 0, 0, 0, 0, 0, 2] = Some [2]"
    using t [THEN conjunct2, THEN conjunct2, THEN conjunct2, THEN conjunct1, THEN spec,
        where x = "[0, 0, 0, 0, 0, 0, 0, 2]"] by simp
  have 5: "([0, 0, 0, 0, 0, 0, 0, 1] :: bytes) < [0, 0, 0, 0, 0, 0, 0, 2]"
    by (rule t [THEN conjunct2, THEN conjunct2, THEN conjunct2, THEN conjunct2, THEN conjunct1])
  show ?thesis by (intro conjI) (rule 1 2 3 4 5)+
qed

section \<open>The key order is kept\<close>


lemma bucket_ok_empty: "bucket_ok empty_bucket"
  by (simp add: bucket_ok_def empty_bucket_def)

lemma bucket_ok_Put: "bucket_ok b \<Longrightarrow> bucket_Put b K V = Inr b' \<Longrightarrow> bucket_ok b'"
  by (auto simp: bucket_ok_def bucket_Put_def sorted_node_put split: if_splits)

lemma bucket_ok_Delete: "bucket_ok b \<Longrightarrow> bucket_Delete b K = Inr b' \<Longrightarrow> bucket_ok b'"
  by (auto simp: bucket_ok_def bucket_Delete_def sorted_node_del)

lemma bucket_ok_NextSequence: "bucket_ok b \<Longrightarrow> bucket_ok (snd (bucket_NextSequence b))"
  by (simp add: bucket_ok_def bucket_NextSequence_def)


section \<open>Iteration\<close>


























end
